theory Spec2Isabelle
  imports Main
begin

section \<open>Numeric parser (include/utils.hpp)\<close>

subsection \<open>The C library pieces that \<open>std::stoi\<close> is built from\<close>

text \<open>
  A \<open>std::string\<close> is a sequence of bytes, here a \<^typ>\<open>string\<close>. The program never
  changes the locale, so the character classes are those of the "C" locale:
  \<open>isspace\<close> holds for the space and for the control characters 9 to 13
  (\<open>\t \n \v \f \r\<close>), \<open>isdigit\<close> for \<open>'0'\<close> to \<open>'9'\<close>.
\<close>

definition isspace :: "char \<Rightarrow> bool" where
  "isspace c \<longleftrightarrow> c = CHR '' '' \<or> (9 \<le> (of_char c :: nat) \<and> (of_char c :: nat) \<le> 13)"

definition isdigit :: "char \<Rightarrow> bool" where
  "isdigit c \<longleftrightarrow> 48 \<le> (of_char c :: nat) \<and> (of_char c :: nat) \<le> 57"

definition digit_value :: "char \<Rightarrow> int" where
  "digit_value c = of_char c - 48"

text \<open>The limits of \<open>long\<close> (LP64) and of \<open>int\<close>.\<close>

definition LONG_MAX :: int where "LONG_MAX = 2 ^ 63 - 1"
definition LONG_MIN :: int where "LONG_MIN = - (2 ^ 63)"
definition INT_MAX :: int where "INT_MAX = 2 ^ 31 - 1"
definition INT_MIN :: int where "INT_MIN = - (2 ^ 31)"

text \<open>
  What \<open>strtol(nptr, &endptr, 10)\<close> reports: the converted value (clamped to the range
  of \<open>long\<close>), whether \<open>errno\<close> was set to \<open>ERANGE\<close>, and \<open>endptr - nptr\<close>. When no
  conversion can be performed \<open>endptr = nptr\<close>, which is \<open>endpos = 0\<close> here.
\<close>

record strtol_result =
  converted :: int
  erange :: bool
  endpos :: nat

text \<open>
  \<open>strtol\<close> in base 10: skip leading white space, take one optional sign, then the
  longest run of decimal digits, accumulated digit by digit. Without a digit nothing is
  converted. A value outside the range of \<open>long\<close> is clamped and flagged, and the digits
  are consumed all the same. The scan runs over \<open>c_str()\<close>; a NUL byte inside the string
  is neither white space nor a sign nor a digit, so the scan stops there as it would at
  the terminator.
\<close>

definition strtol :: "string \<Rightarrow> strtol_result" where
  "strtol nptr =
     (let ws = takeWhile isspace nptr;
          s1 = dropWhile isspace nptr;
          neg = (s1 \<noteq> [] \<and> hd s1 = CHR ''-'');
          sgn = (if s1 \<noteq> [] \<and> (hd s1 = CHR ''-'' \<or> hd s1 = CHR ''+'') then 1 else 0);
          ds = takeWhile isdigit (drop sgn s1);
          acc = foldl (\<lambda>a c. 10 * a + digit_value c) 0 ds;
          v = (if neg then - acc else acc)
      in if ds = [] then \<lparr>converted = 0, erange = False, endpos = 0\<rparr>
         else \<lparr>converted = max LONG_MIN (min LONG_MAX v),
               erange = (v < LONG_MIN \<or> LONG_MAX < v),
               endpos = length ws + sgn + length ds\<rparr>)"

text \<open>
  \<open>std::stoi(str, &pos)\<close> calls \<open>strtol(str.c_str(), &end, 10)\<close>. It throws
  \<open>std::invalid_argument\<close> when no conversion could be performed, and
  \<open>std::out_of_range\<close> when \<open>strtol\<close> set \<open>ERANGE\<close> or the value does not fit an
  \<open>int\<close>; otherwise it stores \<open>end - str.c_str()\<close> in \<open>pos\<close> and returns the value.
\<close>

datatype stoi_error = invalid_argument | out_of_range

definition stoi :: "string \<Rightarrow> stoi_error + (int \<times> nat)" where
  "stoi str =
     (let r = strtol str
      in if endpos r = 0 then Inl invalid_argument
         else if erange r \<or> converted r < INT_MIN \<or> INT_MAX < converted r then Inl out_of_range
         else Inr (converted r, endpos r))"

subsection \<open>\<open>parse_number\<close> and the accessors of its result\<close>

text \<open>\<open>using NumberResult = std::pair<int, std::string>\<close>: (result, error message).\<close>

type_synonym NumberResult = "int \<times> string"

definition parse_number :: "string \<Rightarrow> NumberResult" where
  "parse_number input =
     (case stoi input of
        Inr (result, pos) \<Rightarrow>
          if pos \<noteq> length input
          then (0, ''Not all characters were used in conversion'')
          else (result, '''')
      | Inl invalid_argument \<Rightarrow> (0, ''Invalid argument'')
      | Inl out_of_range \<Rightarrow> (0, ''Out of range''))"

definition has_error :: "NumberResult \<Rightarrow> bool" where
  "has_error result \<longleftrightarrow> \<not> (snd result = [])"

definition get_error :: "NumberResult \<Rightarrow> string" where
  "get_error result = snd result"

text \<open>\<open>get_value\<close> throws \<open>std::runtime_error(result.second)\<close> on a failed result.\<close>

datatype runtime_error = runtime_error string

definition get_value :: "NumberResult \<Rightarrow> runtime_error + int" where
  "get_value result =
     (if has_error result then Inl (runtime_error (snd result)) else Inr (fst result))"

subsection \<open>What a decimal numeral denotes\<close>

text \<open>
  The integer written by a digit string, by position: the digit at index \<open>i\<close> of \<open>n\<close>
  digits counts \<open>10 ^ (n - 1 - i)\<close>. A numeral is an optional sign and its digits.
\<close>

definition decimal_value :: "string \<Rightarrow> int" where
  "decimal_value ds =
     (\<Sum>i\<leftarrow>[0..<length ds]. digit_value (ds ! i) * 10 ^ (length ds - Suc i))"

definition is_sign :: "string \<Rightarrow> bool" where
  "is_sign sg \<longleftrightarrow> sg = [] \<or> sg = ''+'' \<or> sg = ''-''"

definition is_digits :: "string \<Rightarrow> bool" where
  "is_digits ds \<longleftrightarrow> ds \<noteq> [] \<and> list_all isdigit ds"

definition numeral_value :: "string \<Rightarrow> string \<Rightarrow> int" where
  "numeral_value sg ds = (if sg = ''-'' then - decimal_value ds else decimal_value ds)"

definition in_int_range :: "int \<Rightarrow> bool" where
  "in_int_range v \<longleftrightarrow> INT_MIN \<le> v \<and> v \<le> INT_MAX"

section \<open>Generic container (include/utils.hpp)\<close>

text \<open>
  \<open>template <typename T> class Container\<close> with its one field, a \<open>std::vector<T>\<close>. A
  member function takes the object and returns it: \<open>add\<close> returns the changed
  container, the \<open>const\<close> member \<open>contains\<close> its result and the container it was
  given. The equality \<open>operator==\<close> of \<open>T\<close> is the parameter \<open>eq\<close>. An index or
  a size (\<open>size_t\<close>) is a \<^typ>\<open>nat\<close>: it never exceeds the size of a vector, so it
  does not wrap around.
\<close>

record 'a Container =
  data :: "'a list"

definition Container_init :: "'a Container" where
  "Container_init = \<lparr>data = []\<rparr>"

definition add :: "'a \<Rightarrow> 'a Container \<Rightarrow> 'a Container" where
  "add v c = c\<lparr>data := data c @ [v]\<rparr>"

text \<open>
  The loop of \<open>contains\<close>, from index \<open>i\<close> on:
  \<^verbatim>\<open>for (size_t i = 0; i < data.size(); ++i) if (data[i] == value) return {true, i};\<close>
  and \<open>return {false, 0}\<close> after it.
\<close>

function contains_loop :: "('a \<Rightarrow> 'a \<Rightarrow> bool) \<Rightarrow> 'a list \<Rightarrow> 'a \<Rightarrow> nat \<Rightarrow> bool \<times> nat" where
  "contains_loop eq xs v i =
     (if i < length xs
      then (if eq (xs ! i) v then (True, i) else contains_loop eq xs v (i + 1))
      else (False, 0))"
  by pat_completeness auto
termination
  by (relation "measure (\<lambda>(eq, xs, v, i). length xs - i)") auto

definition contains :: "('a \<Rightarrow> 'a \<Rightarrow> bool) \<Rightarrow> 'a \<Rightarrow> 'a Container \<Rightarrow> (bool \<times> nat) \<times> 'a Container" where
  "contains eq v c = (contains_loop eq (data c) v 0, c)"

text \<open>The container after a sequence of \<open>add\<close> calls on a new one.\<close>

definition after_adds :: "'a list \<Rightarrow> 'a Container" where
  "after_adds vs = foldl (\<lambda>c v. add v c) Container_init vs"

section \<open>Demo class (src/main.cpp)\<close>

text \<open>
  \<open>class ModernCppDemo\<close> holds a \<open>std::vector<std::string>\<close>. \<open>std::find\<close> returns the
  iterator to the first element equal to the value, or the end iterator; an iterator is
  its distance from \<open>begin()\<close>, so the end iterator is the length.
\<close>

record ModernCppDemo =
  demo_data :: "string list"

definition ModernCppDemo_init :: "string list \<Rightarrow> ModernCppDemo" where
  "ModernCppDemo_init init = \<lparr>demo_data = init\<rparr>"

fun std_find :: "'a list \<Rightarrow> 'a \<Rightarrow> nat" where
  "std_find [] v = 0"
| "std_find (x # xs) v = (if x = v then 0 else Suc (std_find xs v))"

definition size_demo :: "ModernCppDemo \<Rightarrow> nat \<times> ModernCppDemo" where
  "size_demo d = (length (demo_data d), d)"

definition transform_all :: "string \<Rightarrow> ModernCppDemo \<Rightarrow> ModernCppDemo" where
  "transform_all prefix d = d\<lparr>demo_data := map (\<lambda>item. prefix @ item) (demo_data d)\<rparr>"

definition add_if_not_exists :: "string \<Rightarrow> ModernCppDemo \<Rightarrow> (nat \<times> bool) \<times> ModernCppDemo" where
  "add_if_not_exists item d =
     (let it = std_find (demo_data d) item
      in if it = length (demo_data d)
         then (let d' = d\<lparr>demo_data := demo_data d @ [item]\<rparr>
               in ((length (demo_data d') - 1, True), d'))
         else ((it, False), d))"

definition get_at :: "nat \<Rightarrow> ModernCppDemo \<Rightarrow> string option \<times> ModernCppDemo" where
  "get_at index d =
     (if index < length (demo_data d) then (Some (demo_data d ! index), d) else (None, d))"

section \<open>Facts about the conversion\<close>

lemma isdigit_not_isspace: "isdigit c \<Longrightarrow> \<not> isspace c"
  by (auto simp: isdigit_def isspace_def)

lemma isdigit_not_sign: "isdigit c \<Longrightarrow> c \<noteq> CHR ''-'' \<and> c \<noteq> CHR ''+''"
  by (auto simp: isdigit_def)

lemma sign_not_isspace: "\<not> isspace (CHR ''-'')" "\<not> isspace (CHR ''+'')"
  by (simp_all add: isspace_def)

text \<open>The digit-by-digit accumulation of \<open>strtol\<close> computes the positional value.\<close>

lemma decimal_value_snoc: "decimal_value (ds @ [d]) = 10 * decimal_value ds + digit_value d"
proof -
  have "(\<Sum>i\<leftarrow>[0..<length ds]. digit_value ((ds @ [d]) ! i) * 10 ^ (length ds - i))
      = (\<Sum>i\<leftarrow>[0..<length ds]. 10 * (digit_value (ds ! i) * 10 ^ (length ds - Suc i)))"
  proof (rule arg_cong [where f = sum_list], rule map_cong [OF refl])
    fix i assume "i \<in> set [0..<length ds]"
    then have i: "i < length ds" by simp
    then have "length ds - i = Suc (length ds - Suc i)" by simp
    with i show "digit_value ((ds @ [d]) ! i) * 10 ^ (length ds - i)
        = 10 * (digit_value (ds ! i) * 10 ^ (length ds - Suc i))"
      by (simp add: nth_append)
  qed
  then show ?thesis
    by (simp add: decimal_value_def sum_list_const_mult)
qed

lemma horner_decimal_value:
  "foldl (\<lambda>a c. 10 * a + digit_value c) 0 ds = decimal_value ds"
proof (induction ds rule: rev_induct)
  case Nil
  show ?case by (simp add: decimal_value_def)
next
  case (snoc d ds)
  then show ?case by (simp add: decimal_value_snoc)
qed

lemma takeWhile_run:
  assumes "list_all P xs" and "ys = [] \<or> \<not> P (hd ys)"
  shows "takeWhile P (xs @ ys) = xs" and "dropWhile P (xs @ ys) = ys"
proof -
  from assms(1) have all: "\<And>x. x \<in> set xs \<Longrightarrow> P x" by (simp add: list_all_iff)
  from assms(2) have "takeWhile P ys = []" by (cases ys) auto
  with all show "takeWhile P (xs @ ys) = xs" by (simp add: takeWhile_append2)
  from assms(2) have "dropWhile P ys = ys" by (cases ys) auto
  with all show "dropWhile P (xs @ ys) = ys" by (simp add: dropWhile_append2)
qed

text \<open>
  \<open>strtol\<close> on white space, a numeral and a rest that does not go on with a digit:
  it consumes the white space and the numeral, and converts the numeral.
\<close>

lemma strtol_numeral:
  assumes ws: "list_all isspace ws" and sg: "is_sign sg" and ds: "is_digits ds"
    and rest: "rest = [] \<or> \<not> isdigit (hd rest)"
  shows "strtol (ws @ sg @ ds @ rest) =
           \<lparr>converted = max LONG_MIN (min LONG_MAX (numeral_value sg ds)),
            erange = (numeral_value sg ds < LONG_MIN \<or> LONG_MAX < numeral_value sg ds),
            endpos = length ws + length sg + length ds\<rparr>"
proof -
  from ds obtain d ds' where dsc: "ds = d # ds'" and d: "isdigit d"
    by (cases ds) (auto simp: is_digits_def)
  from ds have dall: "list_all isdigit ds" by (simp add: is_digits_def)
  have nsp: "sg @ ds @ rest = [] \<or> \<not> isspace (hd (sg @ ds @ rest))"
    using sg d dsc isdigit_not_isspace sign_not_isspace by (auto simp: is_sign_def)
  have tw: "takeWhile isspace (ws @ sg @ ds @ rest) = ws"
    and dw: "dropWhile isspace (ws @ sg @ ds @ rest) = sg @ ds @ rest"
    using takeWhile_run [OF ws nsp] by simp_all
  have td: "takeWhile isdigit (ds @ rest) = ds"
    using takeWhile_run(1) [OF dall rest] .
  have ne: "ds \<noteq> []" using dsc by simp
  from sg consider "sg = []" | "sg = ''+''" | "sg = ''-''" by (auto simp: is_sign_def)
  then show ?thesis
  proof cases
    case 1
    with d dsc isdigit_not_sign [OF d] td ne show ?thesis
      unfolding strtol_def tw dw
      by (simp add: Let_def horner_decimal_value numeral_value_def)
  next
    case 2
    with td ne show ?thesis
      unfolding strtol_def tw dw
      by (simp add: Let_def horner_decimal_value numeral_value_def)
  next
    case 3
    with td ne show ?thesis
      unfolding strtol_def tw dw
      by (simp add: Let_def horner_decimal_value numeral_value_def)
  qed
qed

lemma stoi_numeral:
  assumes "list_all isspace ws" and "is_sign sg" and ds: "is_digits ds"
    and "rest = [] \<or> \<not> isdigit (hd rest)"
  shows "stoi (ws @ sg @ ds @ rest) =
           (if in_int_range (numeral_value sg ds)
            then Inr (numeral_value sg ds, length ws + length sg + length ds)
            else Inl out_of_range)"
proof -
  from ds have "0 < length ds" by (simp add: is_digits_def)
  then show ?thesis
    unfolding stoi_def strtol_numeral [OF assms]
    by (auto simp: Let_def in_int_range_def INT_MIN_def INT_MAX_def LONG_MIN_def LONG_MAX_def)
qed

lemma parse_number_numeral:
  assumes "list_all isspace ws" and "is_sign sg" and "is_digits ds"
    and "rest = [] \<or> \<not> isdigit (hd rest)"
  shows "parse_number (ws @ sg @ ds @ rest) =
           (if \<not> in_int_range (numeral_value sg ds) then (0, ''Out of range'')
            else if rest \<noteq> [] then (0, ''Not all characters were used in conversion'')
            else (numeral_value sg ds, ''''))"
  unfolding parse_number_def stoi_numeral [OF assms] by simp

lemma parse_number_cases:
  "parse_number input = (0, ''Invalid argument'') \<or>
   parse_number input = (0, ''Out of range'') \<or>
   parse_number input = (0, ''Not all characters were used in conversion'') \<or>
   (\<exists>v. parse_number input = (v, ''''))"
  unfolding parse_number_def
  by (simp split: sum.split stoi_error.split prod.split)

section \<open>Properties of the numeric parser\<close>

text \<open>
  Claim C2. An input that is only an optional sign (\<open>+\<close> or \<open>-\<close>) and one or more
  decimal digits, with a value that fits an \<open>int\<close>, is parsed to exactly the integer it
  denotes, with an empty error text.
\<close>

theorem parse_number_signed_digits:
  assumes "is_sign sg" and "is_digits ds" and "in_int_range (numeral_value sg ds)"
  shows "parse_number (sg @ ds) = (numeral_value sg ds, '''')"
  using parse_number_numeral [of "[]" sg ds "[]"] assms by simp

theorem parse_number_signed_digits_witness:
  "is_sign ''-'' \<and> is_digits ''2147483648'' \<and> in_int_range (numeral_value ''-'' ''2147483648'')
   \<and> parse_number ''-2147483648'' = (- 2147483648, '''')"
proof -
  have sg: "is_sign ''-''" by (simp add: is_sign_def)
  have ds: "is_digits ''2147483648''" by code_simp
  have v: "numeral_value ''-'' ''2147483648'' = - 2147483648" by code_simp
  have r: "in_int_range (numeral_value ''-'' ''2147483648'')" by code_simp
  from parse_number_signed_digits [OF sg ds r] sg ds r v show ?thesis by simp
qed

text \<open>
  Claim C3, as stated: every input with a valid numeric prefix followed by an
  unconsumed character fails with "Not all characters were used in conversion". It
  does not hold when the prefix is out of range: \<open>std::stoi\<close> throws before the
  position is compared, and the error is "Out of range".
\<close>

theorem parse_number_trailing_counterexample:
  "is_sign [] \<and> is_digits ''99999999999999999999999999999'' \<and> \<not> isdigit (hd ''abc'')
   \<and> parse_number (''99999999999999999999999999999'' @ ''abc'') = (0, ''Out of range'')
   \<and> snd (parse_number (''99999999999999999999999999999'' @ ''abc''))
       \<noteq> ''Not all characters were used in conversion''"
  by code_simp

text \<open>
  Claim C3, amended: every input made of optional white space, a numeral whose value
  fits an \<open>int\<close>, and at least one more character that the conversion does not consume
  (the first of them is not a digit) fails with exactly
  "Not all characters were used in conversion", and the stored value is 0, not the
  value of the prefix.
\<close>

theorem parse_number_trailing:
  assumes "list_all isspace ws" and "is_sign sg" and "is_digits ds"
    and "in_int_range (numeral_value sg ds)"
    and "rest \<noteq> []" and "\<not> isdigit (hd rest)"
  shows "parse_number (ws @ sg @ ds @ rest) = (0, ''Not all characters were used in conversion'')"
  using parse_number_numeral [of ws sg ds rest] assms by simp

theorem parse_number_trailing_witness:
  "list_all isspace [] \<and> is_sign [] \<and> is_digits ''123'' \<and> in_int_range (numeral_value [] ''123'')
   \<and> ''abc'' \<noteq> [] \<and> \<not> isdigit (hd ''abc'')
   \<and> parse_number ''123abc'' = (0, ''Not all characters were used in conversion'')"
proof -
  have ws: "list_all isspace []" by simp
  have sg: "is_sign []" by (simp add: is_sign_def)
  have ds: "is_digits ''123''" by code_simp
  have r: "in_int_range (numeral_value [] ''123'')" by code_simp
  have ne: "''abc'' \<noteq> []" by simp
  have nd: "\<not> isdigit (hd ''abc'')" by code_simp
  from parse_number_trailing [OF ws sg ds r ne nd] ws sg ds r ne nd show ?thesis by simp
qed

text \<open>
  Claim C4. An input that denotes an integer outside the range of \<open>int\<close> fails with
  exactly "Out of range". This holds for a bare numeral (\<open>ws = []\<close>, \<open>rest = []\<close>) and
  also with white space before it and unconsumed characters after it.
\<close>

theorem parse_number_out_of_range:
  assumes "list_all isspace ws" and "is_sign sg" and "is_digits ds"
    and "rest = [] \<or> \<not> isdigit (hd rest)"
    and "\<not> in_int_range (numeral_value sg ds)"
  shows "parse_number (ws @ sg @ ds @ rest) = (0, ''Out of range'')"
  using parse_number_numeral [of ws sg ds rest] assms by simp

theorem parse_number_out_of_range_witness:
  "list_all isspace [] \<and> is_sign [] \<and> is_digits ''123456789012345678901234567890''
   \<and> \<not> in_int_range (numeral_value [] ''123456789012345678901234567890'')
   \<and> parse_number ''123456789012345678901234567890'' = (0, ''Out of range'')"
proof -
  have ws: "list_all isspace []" by simp
  have sg: "is_sign []" by (simp add: is_sign_def)
  have ds: "is_digits ''123456789012345678901234567890''" by code_simp
  have rest: "([]::string) = [] \<or> \<not> isdigit (hd [])" by simp
  have r: "\<not> in_int_range (numeral_value [] ''123456789012345678901234567890'')" by code_simp
  from parse_number_out_of_range [OF ws sg ds rest r] ws sg ds r show ?thesis by simp
qed

text \<open>
  Claim C5. \<open>has_error\<close> is true exactly when the error text is not empty;
  \<open>get_value\<close> returns the stored integer when \<open>has_error\<close> is false, and throws the
  \<open>runtime_error\<close> carrying the error text (it returns no value) when it is true.
\<close>

theorem accessor_contract:
  "(has_error r \<longleftrightarrow> snd r \<noteq> [])
   \<and> (\<not> has_error r \<longrightarrow> get_value r = Inr (fst r))
   \<and> (has_error r \<longrightarrow> get_value r = Inl (runtime_error (snd r)) \<and> (\<forall>v. get_value r \<noteq> Inr v))"
  by (simp add: has_error_def get_value_def)

theorem accessor_contract_witness:
  "\<not> has_error (7, '''') \<and> get_value (7, '''') = Inr 7
   \<and> has_error (0, ''Out of range'')
   \<and> get_value (0, ''Out of range'') = Inl (runtime_error ''Out of range'')"
proof -
  have ok: "\<not> has_error (7, '''')" by (simp add: has_error_def)
  have bad: "has_error (0, ''Out of range'')" by (simp add: has_error_def)
  from accessor_contract [of "(7, '''')"] ok have "get_value (7, '''') = Inr 7" by simp
  moreover from accessor_contract [of "(0, ''Out of range'')"] bad
  have "get_value (0, ''Out of range'') = Inl (runtime_error ''Out of range'')" by simp
  ultimately show ?thesis using ok bad by simp
qed

text \<open>
  Claim C8. For every input, the result of \<open>parse_number\<close> is either a success (empty
  error text) or a failure (non-empty error text), never both; a failure stores the
  value 0, and its text is one of the three messages.
\<close>

theorem parse_number_invariant:
  "(snd (parse_number input) = [] \<longleftrightarrow> \<not> has_error (parse_number input))
   \<and> (has_error (parse_number input) \<longrightarrow>
        fst (parse_number input) = 0
        \<and> snd (parse_number input) \<in> {''Invalid argument'', ''Out of range'',
             ''Not all characters were used in conversion''})"
  using parse_number_cases [of input] by (auto simp: has_error_def)

theorem parse_number_invariant_witness:
  "has_error (parse_number ''12x'') \<and> fst (parse_number ''12x'') = 0"
proof -
  have h: "has_error (parse_number ''12x'')" by code_simp
  from parse_number_invariant [of "''12x''"] h show ?thesis by simp
qed

text \<open>
  Claim C10. White space before the numeral is skipped by the conversion and counts as
  consumed: an input of white-space characters followed by a numeral that fits an
  \<open>int\<close>, and nothing else, is parsed to that integer with an empty error text.
\<close>

theorem parse_number_leading_space:
  assumes "list_all isspace ws" and "is_sign sg" and "is_digits ds"
    and "in_int_range (numeral_value sg ds)"
  shows "parse_number (ws @ sg @ ds) = (numeral_value sg ds, '''')"
  using parse_number_numeral [of ws sg ds "[]"] assms by simp

theorem parse_number_leading_space_witness:
  "list_all isspace '' '' \<and> is_sign [] \<and> is_digits ''42'' \<and> in_int_range (numeral_value [] ''42'')
   \<and> parse_number '' 42'' = (42, '''')"
proof -
  have ws: "list_all isspace '' ''" by code_simp
  have sg: "is_sign []" by (simp add: is_sign_def)
  have ds: "is_digits ''42''" by code_simp
  have v: "numeral_value [] ''42'' = 42" by code_simp
  have r: "in_int_range (numeral_value [] ''42'')" by code_simp
  from parse_number_leading_space [OF ws sg ds r] ws sg ds r v show ?thesis by simp
qed

section \<open>Properties of the container\<close>

declare contains_loop.simps [simp del]

lemma data_after_adds_from: "data (foldl (\<lambda>c v. add v c) c vs) = data c @ vs"
  by (induction vs arbitrary: c) (simp_all add: add_def)

lemma data_after_adds: "data (after_adds vs) = vs"
  by (simp add: after_adds_def data_after_adds_from Container_init_def)

text \<open>The loop started at \<open>i\<close> returns the first match at or after \<open>i\<close>.\<close>

lemma contains_loop_found:
  "i \<le> k \<Longrightarrow> k < length xs \<Longrightarrow> eq (xs ! k) v \<Longrightarrow> (\<forall>j. i \<le> j \<and> j < k \<longrightarrow> \<not> eq (xs ! j) v)
   \<Longrightarrow> contains_loop eq xs v i = (True, k)"
proof (induction eq xs v i rule: contains_loop.induct)
  case (1 eq xs v i)
  from "1.prems" have i: "i < length xs" by simp
  show ?case
  proof (cases "eq (xs ! i) v")
    case True
    with "1.prems" have "\<not> i < k" by blast
    with "1.prems" have "i = k" by simp
    with True i show ?thesis by (subst contains_loop.simps) simp
  next
    case False
    with "1.prems" have "i \<noteq> k" by blast
    with "1.prems" have "i + 1 \<le> k" by simp
    moreover from "1.prems" have "\<forall>j. i + 1 \<le> j \<and> j < k \<longrightarrow> \<not> eq (xs ! j) v" by simp
    ultimately have "contains_loop eq xs v (i + 1) = (True, k)"
      using "1.IH" [OF i False] "1.prems" by blast
    with False i show ?thesis by (subst contains_loop.simps) simp
  qed
qed

lemma contains_loop_absent:
  "(\<forall>j. i \<le> j \<and> j < length xs \<longrightarrow> \<not> eq (xs ! j) v) \<Longrightarrow> contains_loop eq xs v i = (False, 0)"
proof (induction eq xs v i rule: contains_loop.induct)
  case (1 eq xs v i)
  show ?case
  proof (cases "i < length xs")
    case True
    with "1.prems" have ne: "\<not> eq (xs ! i) v" by simp
    from "1.prems" have "\<forall>j. i + 1 \<le> j \<and> j < length xs \<longrightarrow> \<not> eq (xs ! j) v" by simp
    with "1.IH" [OF True ne] have "contains_loop eq xs v (i + 1) = (False, 0)" by blast
    with True ne show ?thesis by (subst contains_loop.simps) simp
  next
    case False
    then show ?thesis by (subst contains_loop.simps) simp
  qed
qed

text \<open>
  Claim C1. For every container (so for every one reached by a sequence of \<open>add\<close>
  calls, whose elements are the added values in order) and every value \<open>v\<close>:
  \<open>contains\<close> returns the container unchanged; when some element compares equal to
  \<open>v\<close> it returns \<open>(true, i)\<close> with \<open>i\<close> the smallest index of such an element; when no
  element does it returns \<open>(false, 0)\<close>.
\<close>

theorem contains_first_index:
  "snd (contains eq v c) = c
   \<and> ((\<exists>k<length (data c). eq (data c ! k) v) \<longrightarrow>
        (\<exists>i. fst (contains eq v c) = (True, i) \<and> i < length (data c) \<and> eq (data c ! i) v
             \<and> (\<forall>j<i. \<not> eq (data c ! j) v)))
   \<and> ((\<forall>k<length (data c). \<not> eq (data c ! k) v) \<longrightarrow> fst (contains eq v c) = (False, 0))"
proof (intro conjI impI)
  show "snd (contains eq v c) = c" by (simp add: contains_def)
next
  assume ex: "\<exists>k<length (data c). eq (data c ! k) v"
  define P where "P k \<longleftrightarrow> k < length (data c) \<and> eq (data c ! k) v" for k
  from ex have "\<exists>k. P k" by (auto simp: P_def)
  then have least: "P (LEAST k. P k)" by (rule LeastI_ex)
  have below: "\<not> P j" if "j < (LEAST k. P k)" for j using that by (rule not_less_Least)
  let ?i = "LEAST k. P k"
  from least have i: "?i < length (data c)" and e: "eq (data c ! ?i) v" by (simp_all add: P_def)
  have nb: "\<forall>j<?i. \<not> eq (data c ! j) v"
  proof (intro allI impI)
    fix j assume j: "j < ?i"
    with i have "j < length (data c)" by simp
    with below [OF j] show "\<not> eq (data c ! j) v" by (simp add: P_def)
  qed
  then have "contains_loop eq (data c) v 0 = (True, ?i)"
    using contains_loop_found [of 0 ?i "data c" eq v] i e by simp
  with i e nb show "\<exists>i. fst (contains eq v c) = (True, i) \<and> i < length (data c)
      \<and> eq (data c ! i) v \<and> (\<forall>j<i. \<not> eq (data c ! j) v)"
    by (auto simp: contains_def)
next
  assume "\<forall>k<length (data c). \<not> eq (data c ! k) v"
  then have "contains_loop eq (data c) v 0 = (False, 0)"
    using contains_loop_absent [of 0 "data c" eq v] by simp
  then show "fst (contains eq v c) = (False, 0)" by (simp add: contains_def)
qed

theorem contains_first_index_witness:
  "data (after_adds [1, 3, 2, 3 :: int]) = [1, 3, 2, 3]
   \<and> contains (=) 3 (after_adds [1, 3, 2, 3 :: int]) = ((True, 1), after_adds [1, 3, 2, 3])
   \<and> contains (=) 5 (after_adds [1, 3, 2, 3 :: int]) = ((False, 0), after_adds [1, 3, 2, 3])"
proof -
  let ?c = "after_adds [1, 3, 2, 3 :: int]"
  have d: "data ?c = [1, 3, 2, 3]" by (rule data_after_adds)
  have ex: "\<exists>k<length (data ?c). data ?c ! k = 3"
    unfolding d by (rule exI [of _ 1]) simp
  from contains_first_index [of "(=)" 3 ?c] ex
  obtain i where r: "fst (contains (=) 3 ?c) = (True, i)" and e: "data ?c ! i = 3"
    and nb: "\<forall>j<i. data ?c ! j \<noteq> 3" and s3: "snd (contains (=) 3 ?c) = ?c"
    by blast
  have "\<not> 1 < i" using nb d by auto
  moreover have "i \<noteq> 0"
  proof
    assume "i = 0"
    with e d show False by simp
  qed
  ultimately have "i = 1" by simp
  with r s3 have found: "contains (=) 3 ?c = ((True, 1), ?c)" by (simp add: prod_eq_iff)
  have no: "\<forall>k<length (data ?c). data ?c ! k \<noteq> 5"
  proof (intro allI impI)
    fix k assume "k < length (data ?c)"
    then have "data ?c ! k \<in> set (data ?c)" by (rule nth_mem)
    then show "data ?c ! k \<noteq> 5" unfolding d by auto
  qed
  from contains_first_index [of "(=)" 5 ?c] no
  have "fst (contains (=) 5 ?c) = (False, 0)" and "snd (contains (=) 5 ?c) = ?c" by blast+
  then have absent: "contains (=) 5 ?c = ((False, 0), ?c)" by (simp add: prod_eq_iff)
  from d found absent show ?thesis by simp
qed

text \<open>
  Claim C6. \<open>add(v)\<close> puts \<open>v\<close> at the end of the sequence: the length grows by
  exactly one, the first \<open>n\<close> elements of the new sequence are the old sequence, and the
  new last element is \<open>v\<close>. \<open>add\<close> always returns a container; it has no error result.
\<close>

theorem add_appends:
  "data (add v c) = data c @ [v]
   \<and> length (data (add v c)) = length (data c) + 1
   \<and> take (length (data c)) (data (add v c)) = data c
   \<and> data (add v c) ! length (data c) = v"
  by (simp add: add_def)

section \<open>Properties of the demo class\<close>

lemma std_find_absent: "v \<notin> set xs \<Longrightarrow> std_find xs v = length xs"
  by (induction xs) auto

lemma std_find_present:
  "v \<in> set xs \<Longrightarrow> std_find xs v < length xs \<and> xs ! std_find xs v = v
     \<and> (\<forall>j<std_find xs v. xs ! j \<noteq> v)"
proof (induction xs)
  case Nil
  then show ?case by simp
next
  case (Cons x xs)
  show ?case
  proof (cases "x = v")
    case True
    then show ?thesis by simp
  next
    case False
    with Cons.prems have "v \<in> set xs" by simp
    from Cons.IH [OF this] False show ?thesis
      by (auto simp: nth_Cons split: nat.splits)
  qed
qed

text \<open>
  Claim C7. From the demo object seeded with apple, banana, cherry:
  \<open>add_if_not_exists("date")\<close> returns \<open>(3, true)\<close>, a second call returns
  \<open>(3, false)\<close>; after \<open>transform_all("fruit: ")\<close> the list is the four prefixed
  strings; \<open>get_at(1)\<close> is the present value "fruit: banana" and \<open>get_at(10)\<close> is
  absent.
\<close>

theorem demo_end_to_end:
  "(let d0 = ModernCppDemo_init [''apple'', ''banana'', ''cherry''];
        (r1, d1) = add_if_not_exists ''date'' d0;
        (r2, d2) = add_if_not_exists ''date'' d1;
        d3 = transform_all ''fruit: '' d2
    in r1 = (3, True) \<and> r2 = (3, False)
       \<and> demo_data d3 = [''fruit: apple'', ''fruit: banana'', ''fruit: cherry'', ''fruit: date'']
       \<and> fst (get_at 1 d3) = Some ''fruit: banana''
       \<and> fst (get_at 10 d3) = None)"
  by (simp add: ModernCppDemo_init_def add_if_not_exists_def transform_all_def get_at_def Let_def)

text \<open>
  Claim C9. When the item is already in the list, \<open>add_if_not_exists\<close> returns the
  demo object unchanged (same length, elements and order) together with the index of
  the first occurrence of the item and \<open>false\<close>; when the item is absent it appends it
  and returns its index, the old length, and \<open>true\<close>.
\<close>

theorem add_if_not_exists_present_unchanged:
  "(item \<in> set (demo_data d) \<longrightarrow>
      (\<exists>i. add_if_not_exists item d = ((i, False), d) \<and> i < length (demo_data d)
           \<and> demo_data d ! i = item \<and> (\<forall>j<i. demo_data d ! j \<noteq> item)))
   \<and> (item \<notin> set (demo_data d) \<longrightarrow>
        add_if_not_exists item d
          = ((length (demo_data d), True), d\<lparr>demo_data := demo_data d @ [item]\<rparr>))"
proof (intro conjI impI)
  assume "item \<in> set (demo_data d)"
  from std_find_present [OF this] show "\<exists>i. add_if_not_exists item d = ((i, False), d)
      \<and> i < length (demo_data d) \<and> demo_data d ! i = item \<and> (\<forall>j<i. demo_data d ! j \<noteq> item)"
    by (intro exI [of _ "std_find (demo_data d) item"]) (simp add: add_if_not_exists_def Let_def)
next
  assume "item \<notin> set (demo_data d)"
  from std_find_absent [OF this] show "add_if_not_exists item d
      = ((length (demo_data d), True), d\<lparr>demo_data := demo_data d @ [item]\<rparr>)"
    by (simp add: add_if_not_exists_def Let_def)
qed

theorem add_if_not_exists_present_unchanged_witness:
  "''b'' \<in> set (demo_data (ModernCppDemo_init [''a'', ''b'', ''c'', ''b'']))
   \<and> add_if_not_exists ''b'' (ModernCppDemo_init [''a'', ''b'', ''c'', ''b''])
       = ((1, False), ModernCppDemo_init [''a'', ''b'', ''c'', ''b''])
   \<and> add_if_not_exists ''d'' (ModernCppDemo_init [''a'', ''b'', ''c'', ''b''])
       = ((4, True), ModernCppDemo_init [''a'', ''b'', ''c'', ''b'', ''d''])"
proof -
  let ?d = "ModernCppDemo_init [''a'', ''b'', ''c'', ''b'']"
  have d: "demo_data ?d = [''a'', ''b'', ''c'', ''b'']" by (simp add: ModernCppDemo_init_def)
  have mem: "''b'' \<in> set (demo_data ?d)" unfolding d by simp
  from add_if_not_exists_present_unchanged [of "''b''" ?d] mem
  obtain i where r: "add_if_not_exists ''b'' ?d = ((i, False), ?d)"
    and e: "demo_data ?d ! i = ''b''" and nb: "\<forall>j<i. demo_data ?d ! j \<noteq> ''b''"
    by blast
  have "\<not> 1 < i" using nb d by auto
  moreover have "i \<noteq> 0"
  proof
    assume "i = 0"
    with e d show False by simp
  qed
  ultimately have "i = 1" by simp
  with r have present: "add_if_not_exists ''b'' ?d = ((1, False), ?d)" by simp
  have nm: "''d'' \<notin> set (demo_data ?d)" unfolding d by simp
  from add_if_not_exists_present_unchanged [of "''d''" ?d] nm
  have "add_if_not_exists ''d'' ?d
      = ((length (demo_data ?d), True), ?d\<lparr>demo_data := demo_data ?d @ [''d'']\<rparr>)" by blast
  then have absent: "add_if_not_exists ''d'' ?d
      = ((4, True), ModernCppDemo_init [''a'', ''b'', ''c'', ''b'', ''d''])"
    by (simp add: ModernCppDemo_init_def)
  from mem present absent show ?thesis by simp
qed

end
